theory Spec2Isabelle
  imports Complex_Main "HOL-Library.Word"
begin

unbundle bit_operations_syntax

section \<open>The NEC infrared decoder of Mosiwi\_nec\_ir.py\<close>

text \<open>
  The development embeds the two classes of
  \<^verbatim>\<open>src/python/Mosiwi_lib_examples/Mosiwi_nec_ir.py\<close>: \<^verbatim>\<open>PulseReader\<close>
  (the acquisition buffer filled by the timer callback) and \<^verbatim>\<open>necDecoder\<close>
  (bit classifier, frame decoder, repeat handling and the polling operation
  \<^verbatim>\<open>decode\<close>).

  Conventions of the embedding.
  \<^item> Python integers are \<open>int\<close>; the values read from the PIO FIFO are \<open>32 word\<close>.
  \<^item> Python floats are taken as real numbers. The only float operations of the file
    are the product with \<open>0.20\<close> in \<^verbatim>\<open>match\<close> and the product with
    \<open>2 * 1000000 / 256000 = 7.8125\<close> in \<^verbatim>\<open>convertToMS\<close>; rounding is not
    modelled.
  \<^item> There is one decoder object and it owns one pulse reader; the fields of both
    are the fields of one record. The class attributes of \<^verbatim>\<open>PulseReader\<close> are
    read through that single instance only, so they behave as its fields.
  \<^item> A raised exception is the \<open>Inl\<close> branch of a sum type.
  \<^item> The timer callback and the polling call are atomic steps.
\<close>

subsection \<open>Data\<close>

datatype py_error = IndexError | ValueError

text \<open>
  \<^verbatim>\<open>decodeCommand\<close> returns only a boolean. The verdict names which
  \<^verbatim>\<open>return\<close> statement was taken, after the diagnostic messages that the source
  keeps in comments beside each of them; the boolean of the source is
  \<open>verdict = Decoded\<close>.
\<close>

datatype verdict =
    Decoded               \<comment> \<open>line 139: \<^verbatim>\<open>return True\<close>\<close>
  | TooShort              \<comment> \<open>line 140: \<^verbatim>\<open>return False\<close>, the length test failed\<close>
  | StartingPulseError    \<comment> \<open>line 126: "invalid code - Starting pulse error"\<close>
  | InvalidOne            \<comment> \<open>line 134: "Invalid Code - One"\<close>
  | InvalidZero           \<comment> \<open>line 138: "Invalid Code - Zero"\<close>

record necDecoder =
  rawPulsesBuf :: "int list"
  rawRepeatTimeBuf :: "int list"
  rawCommandTimeBuf :: "int list"
  rawCommandTimeBuffer :: "int list option"
    \<comment> \<open>the attribute that line 89 creates; \<open>None\<close> while it does not exist\<close>
  newRepeatFlag :: bool
  newCommandFlag :: bool
  necData :: int
  commandRepeat :: bool
  err :: "int option"
    \<comment> \<open>the attribute that line 147 creates\<close>

definition pulseTimeout :: int where
  "pulseTimeout = 2 ^ 12 - 1"

definition smFreq :: real where
  "smFreq = 256000"  \<comment> \<open>line 109: \<^verbatim>\<open>PulseReader(irPin, 256000)\<close>\<close>

definition DATA_PULSE_WIDTH :: int where
  "DATA_PULSE_WIDTH = 560"

definition ALLOWED_DEVIATION :: real where
  "ALLOWED_DEVIATION = 20 / 100"

text \<open>The object after \<^verbatim>\<open>necDecoder(irPin, commandRepeat)\<close>.\<close>

definition init :: "bool \<Rightarrow> necDecoder" where
  "init cr =
     \<lparr> rawPulsesBuf = [], rawRepeatTimeBuf = [], rawCommandTimeBuf = [],
       rawCommandTimeBuffer = None, newRepeatFlag = False, newCommandFlag = False,
       necData = 0, commandRepeat = cr, err = None \<rparr>"

subsection \<open>PulseReader\<close>

text \<open>
  \<^verbatim>\<open>int(i * factor)\<close>: the product as a real number, truncated towards zero.
\<close>

definition factor :: real where
  "factor = 2 * 1000000 / smFreq"

definition toMicros :: "int \<Rightarrow> int" where
  "toMicros i = (let x = of_int i * factor in if 0 \<le> x then \<lfloor>x\<rfloor> else \<lceil>x\<rceil>)"

text \<open>
  \<^verbatim>\<open>convertToMS\<close>, lines 82 to 91. The repeat buffer is reset on every call.
  In the other branch the source assigns the empty list to
  \<^verbatim>\<open>rawCommandTimeBuffer\<close> and then appends to \<^verbatim>\<open>rawCommandTimeBuf\<close>.
\<close>

definition convertToMS :: "necDecoder \<Rightarrow> int list \<Rightarrow> necDecoder" where
  "convertToMS s code =
     (let s1 = s\<lparr>rawRepeatTimeBuf := []\<rparr> in
      if length code = 2 then
        s1\<lparr>rawRepeatTimeBuf := rawRepeatTimeBuf s1 @ map toMicros code,
           newRepeatFlag := True\<rparr>
      else
        s1\<lparr>rawCommandTimeBuffer := Some [],
           rawCommandTimeBuf := rawCommandTimeBuf s1 @ map toMicros code,
           newCommandFlag := True\<rparr>)"

text \<open>
  \<^verbatim>\<open>getPulses\<close>, lines 93 to 100. The argument is \<open>None\<close> when
  \<^verbatim>\<open>rx_fifo()\<close> is zero and otherwise the value that \<^verbatim>\<open>get()\<close> returns.
\<close>

definition getPulses :: "necDecoder \<Rightarrow> 32 word option \<Rightarrow> necDecoder" where
  "getPulses s fifo =
     (case fifo of
        None \<Rightarrow> s
      | Some pulse \<Rightarrow>
          if pulse = 0xffffffff then
            (convertToMS s (rawPulsesBuf s))\<lparr>rawPulsesBuf := []\<rparr>
          else s\<lparr>rawPulsesBuf := rawPulsesBuf s @ [pulseTimeout - uint pulse]\<rparr>)"

subsection \<open>necDecoder\<close>

definition match :: "real \<Rightarrow> real \<Rightarrow> bool" where
  "match val expectedVal \<longleftrightarrow> \<bar>val - expectedVal\<bar> < val * ALLOWED_DEVIATION"

definition checkZero :: "real \<Rightarrow> real \<Rightarrow> bool" where
  "checkZero p1 p2 \<longleftrightarrow>
     match p1 (of_int DATA_PULSE_WIDTH) \<and> match p2 (of_int DATA_PULSE_WIDTH)"

definition checkOne :: "real \<Rightarrow> real \<Rightarrow> bool" where
  "checkOne p1 p2 \<longleftrightarrow>
     match p1 (of_int DATA_PULSE_WIDTH) \<and> match p2 (of_int (DATA_PULSE_WIDTH * 3))"

text \<open>\<^verbatim>\<open>1 << n\<close> raises \<^verbatim>\<open>ValueError\<close> for a negative shift count.\<close>

definition shl1 :: "int \<Rightarrow> py_error + int" where
  "shl1 n = (if n < 0 then Inl ValueError else Inr (push_bit (nat n) 1))"

text \<open>
  The loop of lines 128 to 138, \<^verbatim>\<open>for i in range(2, len(rawPulses)-1, 2)\<close>, with
  \<^verbatim>\<open>self.necData\<close> as accumulator. The test \<open>i + 1 < length rawPulses\<close> is
  \<^verbatim>\<open>i < len(rawPulses) - 1\<close>, so both list accesses of the body are in range.
  \<^verbatim>\<open>int(i/2)\<close> is \<open>i div 2\<close>.
\<close>

function decodeLoop :: "int list \<Rightarrow> nat \<Rightarrow> int \<Rightarrow> py_error + (verdict \<times> int)" where
  "decodeLoop rawPulses i nd =
     (if i + 1 < length rawPulses then
        if rawPulses ! i + rawPulses ! (i + 1) > DATA_PULSE_WIDTH * 3 then
          if checkOne (of_int (rawPulses ! i)) (of_int (rawPulses ! (i + 1))) then
            (case shl1 (31 - (int (i div 2) - 1)) of
               Inl e \<Rightarrow> Inl e
             | Inr b \<Rightarrow> decodeLoop rawPulses (i + 2) (nd OR b))
          else Inr (InvalidOne, nd)
        else
          if \<not> checkZero (of_int (rawPulses ! i)) (of_int (rawPulses ! (i + 1))) then
            Inr (InvalidZero, nd)
          else decodeLoop rawPulses (i + 2) nd
      else Inr (Decoded, nd))"
  by pat_completeness auto
termination
  by (relation "measure (\<lambda>(rawPulses, i, nd). length rawPulses - i)") auto

declare decodeLoop.simps [simp del]

text \<open>
  \<^verbatim>\<open>decodeCommand\<close>, lines 120 to 140. Under \<open>1 < length rawPulses\<close> the
  accesses to the indices 0 and 1 are in range.
\<close>

definition decodeCommand :: "necDecoder \<Rightarrow> int list \<Rightarrow> py_error + (verdict \<times> necDecoder)" where
  "decodeCommand s rawPulses =
     (if length rawPulses > 1 then
        let s1 = s\<lparr>necData := 0, newCommandFlag := False\<rparr> in
        if \<not> match (of_int (rawPulses ! 0)) 9000 \<and> \<not> match (of_int (rawPulses ! 1)) 4500
        then Inr (StartingPulseError, s1)
        else
          (case decodeLoop rawPulses 2 (necData s1) of
             Inl e \<Rightarrow> Inl e
           | Inr (v, nd) \<Rightarrow> Inr (v, s1\<lparr>necData := nd\<rparr>))
      else Inr (TooShort, s))"

text \<open>Python's \<^verbatim>\<open>xs[i]\<close> for a non-negative index.\<close>

definition item :: "int list \<Rightarrow> nat \<Rightarrow> py_error + int" where
  "item xs i = (if i < length xs then Inr (xs ! i) else Inl IndexError)"

text \<open>
  \<^verbatim>\<open>decode\<close>, lines 142 to 157, is two \<^verbatim>\<open>if\<close> statements in sequence and a
  final \<^verbatim>\<open>return False\<close>. \<open>decode_if_command\<close> is the first statement (lines
  143 to 148): its boolean tells whether it returned \<^verbatim>\<open>True\<close>; when it did not,
  control goes on to the second statement. \<open>decode_if_repeat\<close> is the second
  statement with the final return (lines 149 to 157). The conjunction of line 154
  evaluates \<^verbatim>\<open>rawRepeat[1]\<close> only when the first match holds.
\<close>

definition decode_if_command :: "necDecoder \<Rightarrow> py_error + (bool \<times> necDecoder)" where
  "decode_if_command s =
     (if newCommandFlag s then
        let rawPulses = rawCommandTimeBuf s;
            s1 = s\<lparr>rawCommandTimeBuf := []\<rparr> in
        (case decodeCommand s1 rawPulses of
           Inl e \<Rightarrow> Inl e
         | Inr (v, s2) \<Rightarrow>
             if v = Decoded then Inr (True, s2\<lparr>err := Some 0\<rparr>) else Inr (False, s2))
      else Inr (False, s))"

definition decode_if_repeat :: "necDecoder \<Rightarrow> py_error + (bool \<times> necDecoder)" where
  "decode_if_repeat s =
     (if newRepeatFlag s then
        let rawRepeat = rawRepeatTimeBuf s;
            s1 = s\<lparr>rawRepeatTimeBuf := []\<rparr> in
        if length rawRepeat \<noteq> 0 then
          let s2 = s1\<lparr>newCommandFlag := False\<rparr> in
          (case item rawRepeat 0 of
             Inl e \<Rightarrow> Inl e
           | Inr r0 \<Rightarrow>
               if match (of_int r0) 9000 then
                 (case item rawRepeat 1 of
                    Inl e \<Rightarrow> Inl e
                  | Inr r1 \<Rightarrow>
                      if match (of_int r1) 2250 then
                        Inr (True, if \<not> commandRepeat s2 then s2\<lparr>necData := 0xffffffff\<rparr> else s2)
                      else Inr (False, s2))
               else Inr (False, s2))
        else Inr (False, s1)
      else Inr (False, s))"

definition decode :: "necDecoder \<Rightarrow> py_error + (bool \<times> necDecoder)" where
  "decode s =
     (case decode_if_command s of
        Inl e \<Rightarrow> Inl e
      | Inr (returned, s1) \<Rightarrow> if returned then Inr (True, s1) else decode_if_repeat s1)"

text \<open>
  The condition under which the second statement of \<^verbatim>\<open>decode\<close> returns
  \<^verbatim>\<open>True\<close>, read off the tests of lines 149, 152 and 154: a repeat burst is
  flagged and its first two values match 9000 and 2250.
\<close>

definition repeatAccepted :: "necDecoder \<Rightarrow> bool" where
  "repeatAccepted s \<longleftrightarrow>
     newRepeatFlag s \<and> 2 \<le> length (rawRepeatTimeBuf s)
       \<and> match (of_int (rawRepeatTimeBuf s ! 0)) 9000
       \<and> match (of_int (rawRepeatTimeBuf s ! 1)) 2250"

subsection \<open>Runs of the program\<close>

text \<open>
  The two entry points: the timer callback with what the FIFO holds, and the polling
  call of the application loop. An exception in \<^verbatim>\<open>decode\<close> is not caught
  anywhere, so it ends the run.
\<close>

datatype event = Timer "32 word option" | Poll

fun run :: "necDecoder \<Rightarrow> event list \<Rightarrow> py_error + necDecoder" where
  "run s [] = Inr s"
| "run s (Timer fifo # es) = run (getPulses s fifo) es"
| "run s (Poll # es) =
     (case decode s of Inl e \<Rightarrow> Inl e | Inr (r, s') \<Rightarrow> run s' es)"

inductive reachable :: "necDecoder \<Rightarrow> bool" where
  reachable_init: "reachable (init cr)"
| reachable_timer: "reachable s \<Longrightarrow> reachable (getPulses s fifo)"
| reachable_poll: "reachable s \<Longrightarrow> decode s = Inr (r, s') \<Longrightarrow> reachable s'"

text \<open>
  What the pulse source pushes for a duration of \<open>t\<close> counter steps: the counter
  starts at \<open>pulseTimeout\<close> and counts down. The marker of a timeout is
  \<open>0xffffffff\<close>.
\<close>

definition ticks :: "int \<Rightarrow> event" where
  "ticks t = Timer (Some (word_of_int (pulseTimeout - t)))"

definition timeout :: event where
  "timeout = Timer (Some 0xffffffff)"

text \<open>
  A command burst of 34 values: the start pair, eight pairs that encode 0 and eight
  pairs that encode 1, as \<^verbatim>\<open>convertToMS\<close> renders 72 and 216 counter steps.
\<close>

definition nec_burst_00ff :: "int list" where
  "nec_burst_00ff =
     [9000, 4500,
      562, 562, 562, 562, 562, 562, 562, 562, 562, 562, 562, 562, 562, 562, 562, 562,
      562, 1687, 562, 1687, 562, 1687, 562, 1687, 562, 1687, 562, 1687, 562, 1687, 562, 1687]"

section \<open>Properties\<close>

subsection \<open>Arithmetic of the conversion and of the tolerance test\<close>

text \<open>
  \<open>factor\<close> is \<open>125 / 16\<close>, which binary floating point represents exactly, as
  it does every product \<open>i * 125 / 16\<close> of the magnitude of a 32-bit pulse count.
\<close>

lemma toMicros_eq:
  "toMicros i = (if 0 \<le> i then i * 125 div 16 else - ((- i * 125) div 16))"
proof -
  have f: "factor = 125 / 16"
    by (simp add: factor_def smFreq_def)
  have a: "\<lfloor>real_of_int i * (125 / 16)\<rfloor> = i * 125 div 16"
  proof -
    have "real_of_int i * (125 / 16) = real_of_int (i * 125) / real_of_int 16"
      by simp
    then show ?thesis
      by (simp only: floor_divide_of_int_eq)
  qed
  have b: "\<lceil>real_of_int i * (125 / 16)\<rceil> = - ((- i * 125) div 16)"
  proof -
    have "real_of_int i * (125 / 16) = - (real_of_int (- i * 125) / real_of_int 16)"
      by simp
    then show ?thesis
      by (simp only: ceiling_def minus_minus floor_divide_of_int_eq)
  qed
  have c: "(0 \<le> real_of_int i * (125 / 16)) = (0 \<le> i)"
    by (simp add: zero_le_mult_iff)
  show ?thesis
    unfolding toMicros_def Let_def f a b c ..
qed

text \<open>On the integers that the buffers hold, the tolerance test is \<open>5 * |v - e| < v\<close>.\<close>

lemma match_int: "match (of_int v) (of_int e) \<longleftrightarrow> 5 * \<bar>v - e\<bar> < v"
proof -
  have "\<bar>real_of_int v - real_of_int e\<bar> = real_of_int \<bar>v - e\<bar>"
    by simp
  moreover have "(real_of_int \<bar>v - e\<bar> < real_of_int v * (20 / 100))
      = (real_of_int (5 * \<bar>v - e\<bar>) < real_of_int v)"
    by (simp add: mult.commute)
  ultimately show ?thesis
    unfolding match_def ALLOWED_DEVIATION_def by (simp only: of_int_less_iff)
qed

text \<open>Equations that evaluate the producer and the consumer on concrete inputs.\<close>

lemmas producer_simps =
  ticks_def timeout_def getPulses_def convertToMS_def pulseTimeout_def toMicros_eq init_def

lemmas consumer_simps =
  decode_def decode_if_command_def decode_if_repeat_def decodeCommand_def decodeLoop.simps
  item_def shl1_def checkOne_def checkZero_def DATA_PULSE_WIDTH_def match_def
  ALLOWED_DEVIATION_def Let_def

subsection \<open>The loop of the frame decoder\<close>

lemma decodeLoop_verdict:
  "decodeLoop rawPulses i nd = Inr (v, nd')
     \<Longrightarrow> v = Decoded \<or> v = InvalidOne \<or> v = InvalidZero"
proof (induction rawPulses i nd rule: decodeLoop.induct)
  case (1 rawPulses i nd)
  note eq = decodeLoop.simps [of rawPulses i nd]
  from "1.prems" "1.IH" show ?case
    unfolding eq by (auto split: if_splits sum.splits)
qed

lemma shl1_range: "shl1 n = Inr b \<Longrightarrow> n < 32 \<Longrightarrow> 0 \<le> b \<and> b < 2 ^ 32"
proof -
  assume a: "shl1 n = Inr b" and n: "n < 32"
  then have b: "b = 2 ^ nat n" and "0 \<le> n"
    by (auto simp: shl1_def push_bit_eq_mult split: if_splits)
  have "(2::int) ^ nat n < 2 ^ 32"
    using n by (intro power_strict_increasing) auto
  with b show ?thesis by simp
qed

lemma decodeLoop_range:
  "decodeLoop rawPulses i nd = Inr (v, nd') \<Longrightarrow> 2 \<le> i \<Longrightarrow> 0 \<le> nd \<Longrightarrow> nd < 2 ^ 32
     \<Longrightarrow> 0 \<le> nd' \<and> nd' < 2 ^ 32"
proof (induction rawPulses i nd rule: decodeLoop.induct)
  case (1 rawPulses i nd)
  note eq = decodeLoop.simps [of rawPulses i nd]
  have step: "0 \<le> nd OR b \<and> nd OR b < 2 ^ 32"
    if "shl1 (31 - (int (i div 2) - 1)) = Inr b" for b
  proof -
    have "31 - (int (i div 2) - 1) < 32"
      using "1.prems"(2) by linarith
    from shl1_range [OF that this] "1.prems"(3,4) OR_upper [of nd 32 b] show ?thesis
      by simp
  qed
  from "1.prems" "1.IH" step show ?case
    unfolding eq by (auto split: if_splits sum.splits)
qed

text \<open>
  A pair that passes the zero test has a sum of at most \<open>3 * 560\<close>, and a pair that
  passes the one test has a greater sum: the branch that the loop takes on the sum is
  the branch of the test that the pair passes.
\<close>

lemma checkZero_sum:
  "checkZero (of_int p1) (of_int p2) \<Longrightarrow> \<not> p1 + p2 > DATA_PULSE_WIDTH * 3"
  unfolding checkZero_def DATA_PULSE_WIDTH_def match_int by arith

lemma checkOne_sum:
  "checkOne (of_int p1) (of_int p2) \<Longrightarrow> p1 + p2 > DATA_PULSE_WIDTH * 3"
  unfolding checkOne_def DATA_PULSE_WIDTH_def match_int by arith

lemma bit_shl1: "shl1 n = Inr b \<Longrightarrow> bit b k \<longleftrightarrow> int k = n"
  by (auto simp: shl1_def bit_exp_iff push_bit_eq_mult split: if_splits)

text \<open>
  The loop on pairs that all pass one of the two tests, in a burst of at most 66
  values: it runs to the end, and bit \<open>n\<close> of the result is set by the pair at index
  \<open>64 - 2 * n\<close> when that pair passes the one test.
\<close>

lemma decodeLoop_bits:
  assumes "even i" and "length rawPulses \<le> 66"
    and "\<forall>j. i \<le> j \<and> even j \<and> j + 1 < length rawPulses \<longrightarrow>
           checkZero (of_int (rawPulses ! j)) (of_int (rawPulses ! (j + 1)))
           \<or> checkOne (of_int (rawPulses ! j)) (of_int (rawPulses ! (j + 1)))"
  shows "\<exists>nd'. decodeLoop rawPulses i nd = Inr (Decoded, nd')
     \<and> (\<forall>n. bit nd' n \<longleftrightarrow> bit nd n \<or>
           (n \<le> 32 \<and> i \<le> 64 - 2 * n \<and> 65 - 2 * n < length rawPulses
            \<and> checkOne (of_int (rawPulses ! (64 - 2 * n))) (of_int (rawPulses ! (65 - 2 * n)))))"
  using assms
proof (induction rawPulses i nd rule: decodeLoop.induct)
  case (1 rawPulses i nd)
  note eq = decodeLoop.simps [of rawPulses i nd]
  let ?one = "\<lambda>j. checkOne (of_int (rawPulses ! j)) (of_int (rawPulses ! (j + 1)))"
  let ?zero = "\<lambda>j. checkZero (of_int (rawPulses ! j)) (of_int (rawPulses ! (j + 1)))"
  let ?Q = "\<lambda>i n. n \<le> 32 \<and> i \<le> 64 - 2 * n \<and> 65 - 2 * n < length rawPulses
            \<and> checkOne (of_int (rawPulses ! (64 - 2 * n))) (of_int (rawPulses ! (65 - 2 * n)))"
  show ?case
  proof (cases "i + 1 < length rawPulses")
    case False
    then have nq: "\<not> ?Q i n" for n by auto
    have "decodeLoop rawPulses i nd = Inr (Decoded, nd)"
      using False by (simp add: eq)
    moreover have "bit nd n \<longleftrightarrow> bit nd n \<or> ?Q i n" for n
      using nq [of n] by blast
    ultimately show ?thesis by blast
  next
    case True
    with "1.prems" have i64: "i \<le> 64" and valid: "?zero i \<or> ?one i" by auto
    have next_valid: "\<forall>j. i + 2 \<le> j \<and> even j \<and> j + 1 < length rawPulses \<longrightarrow> ?zero j \<or> ?one j"
      using "1.prems"(3) by auto
    have ev: "even (i + 2)" using "1.prems"(1) by simp
    have here: "n \<le> 32 \<and> i = 64 - 2 * n \<longleftrightarrow> int n = 31 - (int (i div 2) - 1)" for n
      using "1.prems"(1) i64 by (auto elim!: evenE)
    have step: "?Q i n \<longleftrightarrow> (int n = 31 - (int (i div 2) - 1) \<and> ?one i) \<or> ?Q (i + 2) n" for n
    proof -
      have "i \<le> 64 - 2 * n \<longleftrightarrow> i = 64 - 2 * n \<or> i + 2 \<le> 64 - 2 * n"
        using "1.prems"(1) by presburger
      moreover have "65 - 2 * n = i + 1" if "n \<le> 32" "i = 64 - 2 * n"
        using that by simp
      ultimately show ?thesis
        using here [of n] True by (metis Suc_eq_plus1)
    qed
    show ?thesis
    proof (cases "?one i")
      case one: True
      then have gt: "rawPulses ! i + rawPulses ! (i + 1) > DATA_PULSE_WIDTH * 3"
        by (rule checkOne_sum)
      have "\<not> 31 - (int (i div 2) - 1) < 0"
        using i64 by linarith
      then have "shl1 (31 - (int (i div 2) - 1))
          = Inr (push_bit (nat (31 - (int (i div 2) - 1))) 1)"
        by (simp only: shl1_def if_False)
      then obtain b where b: "shl1 (31 - (int (i div 2) - 1)) = Inr b" ..
      from "1.IH"(1) [OF True gt one b ev "1.prems"(2) next_valid]
      obtain nd' where r: "decodeLoop rawPulses (i + 2) (nd OR b) = Inr (Decoded, nd')"
        and bits: "\<And>n. bit nd' n \<longleftrightarrow> bit (nd OR b) n \<or> ?Q (i + 2) n"
        by blast
      have "decodeLoop rawPulses i nd = Inr (Decoded, nd')"
        using True gt one b r by (simp add: eq)
      moreover have "bit nd' n \<longleftrightarrow> bit nd n \<or> ?Q i n" for n
        unfolding bits step using one bit_shl1 [OF b, of n] by (auto simp: bit_or_iff)
      ultimately show ?thesis by blast
    next
      case notone: False
      with valid have zero: "?zero i" by blast
      then have le: "\<not> rawPulses ! i + rawPulses ! (i + 1) > DATA_PULSE_WIDTH * 3"
        by (rule checkZero_sum)
      have z: "\<not> \<not> ?zero i" using zero by simp
      from "1.IH"(2) [OF True le z ev "1.prems"(2) next_valid]
      obtain nd' where r: "decodeLoop rawPulses (i + 2) nd = Inr (Decoded, nd')"
        and bits: "\<And>n. bit nd' n \<longleftrightarrow> bit nd n \<or> ?Q (i + 2) n"
        by blast
      have "decodeLoop rawPulses i nd = Inr (Decoded, nd')"
        using True le zero r by (simp add: eq)
      moreover have "bit nd' n \<longleftrightarrow> bit nd n \<or> ?Q i n" for n
        unfolding bits step using notone by auto
      ultimately show ?thesis by blast
    qed
  qed
qed

lemma decodeLoop_bits_34:
  assumes len: "length burst = 34"
    and valid: "\<And>k. k < 16 \<Longrightarrow>
       checkZero (of_int (burst ! (2 * k + 2))) (of_int (burst ! (2 * k + 3)))
       \<or> checkOne (of_int (burst ! (2 * k + 2))) (of_int (burst ! (2 * k + 3)))"
  shows "\<exists>nd. decodeLoop burst 2 0 = Inr (Decoded, nd)
    \<and> (\<forall>k<16. bit nd (31 - k)
          \<longleftrightarrow> checkOne (of_int (burst ! (2 * k + 2))) (of_int (burst ! (2 * k + 3))))
    \<and> (\<forall>n<16. \<not> bit nd n)"
proof -
  have three: "2 * k + 3 = 2 * k + 2 + 1" for k :: nat
    by simp
  have "checkZero (of_int (burst ! j)) (of_int (burst ! (j + 1)))
      \<or> checkOne (of_int (burst ! j)) (of_int (burst ! (j + 1)))"
    if j: "2 \<le> j \<and> even j \<and> j + 1 < length burst" for j
  proof -
    have "j = 2 * ((j - 2) div 2) + 2 \<and> (j - 2) div 2 < 16"
      using j unfolding len by presburger
    then obtain k where k: "j = 2 * k + 2" "k < 16"
      by blast
    from valid [OF k(2)] show ?thesis
      unfolding k(1) three .
  qed
  then have all: "\<forall>j. 2 \<le> j \<and> even j \<and> j + 1 < length burst \<longrightarrow>
      checkZero (of_int (burst ! j)) (of_int (burst ! (j + 1)))
      \<or> checkOne (of_int (burst ! j)) (of_int (burst ! (j + 1)))"
    by blast
  have "even (2::nat)" "length burst \<le> 66"
    using len by simp_all
  from decodeLoop_bits [OF this all, of 0]
  obtain nd where l: "decodeLoop burst 2 0 = Inr (Decoded, nd)"
    and bits: "\<And>n. bit nd n \<longleftrightarrow> n \<le> 32 \<and> 2 \<le> 64 - 2 * n \<and> 65 - 2 * n < 34
        \<and> checkOne (of_int (burst ! (64 - 2 * n))) (of_int (burst ! (65 - 2 * n)))"
    unfolding len by auto
  have high: "bit nd (31 - k)
      \<longleftrightarrow> checkOne (of_int (burst ! (2 * k + 2))) (of_int (burst ! (2 * k + 3)))"
    if "k < 16" for k
  proof -
    have "64 - 2 * (31 - k) = 2 * k + 2" "65 - 2 * (31 - k) = 2 * k + 3"
      using that by auto
    moreover have "31 - k \<le> 32" "2 \<le> 2 * k + 2" "2 * k + 3 < 34"
      using that by auto
    ultimately show ?thesis
      unfolding bits [of "31 - k"] by simp
  qed
  have low: "\<not> bit nd n" if "n < 16" for n
    using bits [of n] that by auto
  from l high low show ?thesis
    by blast
qed

subsection \<open>What the frame decoder and the two statements of decode change\<close>

lemma decodeCommand_short:
  "length rawPulses < 2 \<Longrightarrow> decodeCommand s rawPulses = Inr (TooShort, s)"
  by (simp add: decodeCommand_def)

lemma decodeCommand_frame:
  assumes "decodeCommand s rawPulses = Inr (v, s')" and "1 < length rawPulses"
  shows "\<exists>nd. s' = s\<lparr>newCommandFlag := False, necData := nd\<rparr> \<and> 0 \<le> nd \<and> nd < 2 ^ 32"
proof (cases "\<not> match (of_int (rawPulses ! 0)) 9000 \<and> \<not> match (of_int (rawPulses ! 1)) 4500")
  case True
  with assms have "s' = s\<lparr>newCommandFlag := False, necData := 0\<rparr>"
    by (cases s) (auto simp add: decodeCommand_def Let_def)
  then show ?thesis by auto
next
  case False
  with assms obtain nd where l: "decodeLoop rawPulses 2 0 = Inr (v, nd)"
    and "s' = s\<lparr>newCommandFlag := False, necData := nd\<rparr>"
    by (cases s) (auto simp: decodeCommand_def Let_def split: sum.splits)
  with decodeLoop_range [OF l] show ?thesis by auto
qed

lemma decode_if_command_frame:
  assumes "decode_if_command s = Inr (returned, s1)"
  shows "rawRepeatTimeBuf s1 = rawRepeatTimeBuf s \<and> newRepeatFlag s1 = newRepeatFlag s
    \<and> commandRepeat s1 = commandRepeat s \<and> (newCommandFlag s1 \<longrightarrow> rawCommandTimeBuf s1 = [])
    \<and> (returned \<longrightarrow> \<not> newCommandFlag s1) \<and> (\<not> newCommandFlag s \<longrightarrow> s1 = s \<and> \<not> returned)"
proof (cases "newCommandFlag s")
  case False
  with assms show ?thesis
    by (auto simp: decode_if_command_def)
next
  case True
  let ?raw = "rawCommandTimeBuf s"
  from assms True obtain v s2 where
    dc: "decodeCommand (s\<lparr>rawCommandTimeBuf := []\<rparr>) ?raw = Inr (v, s2)"
    and s1: "s1 = (if v = Decoded then s2\<lparr>err := Some 0\<rparr> else s2)"
    and ret: "returned = (v = Decoded)"
    by (auto simp: decode_if_command_def Let_def split: sum.splits if_splits)
  show ?thesis
  proof (cases "1 < length ?raw")
    case long: True
    from decodeCommand_frame [OF dc long] obtain nd where
      "s2 = s\<lparr>rawCommandTimeBuf := [], newCommandFlag := False, necData := nd\<rparr>"
      by auto
    with s1 ret True show ?thesis by auto
  next
    case short: False
    then have "s2 = s\<lparr>rawCommandTimeBuf := []\<rparr>" "v = TooShort"
      using dc by (auto simp: decodeCommand_def)
    with s1 ret True show ?thesis by auto
  qed
qed

lemma decode_if_repeat_result:
  assumes "length (rawRepeatTimeBuf s) \<noteq> 1"
  shows "decode_if_repeat s = Inr (repeatAccepted s,
           if newRepeatFlag s then
             if rawRepeatTimeBuf s = [] then s\<lparr>rawRepeatTimeBuf := []\<rparr>
             else if repeatAccepted s \<and> \<not> commandRepeat s then
               s\<lparr>rawRepeatTimeBuf := [], newCommandFlag := False, necData := 0xffffffff\<rparr>
             else s\<lparr>rawRepeatTimeBuf := [], newCommandFlag := False\<rparr>
           else s)"
proof (cases "rawRepeatTimeBuf s")
  case Nil
  then show ?thesis by (simp add: decode_if_repeat_def repeatAccepted_def)
next
  case (Cons a xs)
  with assms obtain b ys where "rawRepeatTimeBuf s = a # b # ys"
    by (cases xs) auto
  then show ?thesis
    by (simp add: decode_if_repeat_def repeatAccepted_def item_def Let_def)
qed

lemma reachable_repeat_length:
  "reachable s \<Longrightarrow> length (rawRepeatTimeBuf s) = 0 \<or> length (rawRepeatTimeBuf s) = 2"
proof (induction rule: reachable.induct)
  case (reachable_init cr)
  then show ?case by (simp add: init_def)
next
  case (reachable_timer s fifo)
  then show ?case
    by (auto simp: getPulses_def convertToMS_def Let_def split: option.splits)
next
  case (reachable_poll s r s')
  from reachable_poll.hyps(2) obtain ret s1 where
    c: "decode_if_command s = Inr (ret, s1)" and
    d: "(ret \<and> s' = s1) \<or> decode_if_repeat s1 = Inr (r, s')"
    by (auto simp: decode_def split: sum.splits if_splits)
  have l: "length (rawRepeatTimeBuf s1) \<noteq> 1"
    using decode_if_command_frame [OF c] reachable_poll.IH by auto
  from d show ?case
  proof
    assume "ret \<and> s' = s1"
    then show ?thesis using decode_if_command_frame [OF c] reachable_poll.IH by simp
  next
    assume "decode_if_repeat s1 = Inr (r, s')"
    then show ?thesis
      using decode_if_command_frame [OF c] reachable_poll.IH
      unfolding decode_if_repeat_result [OF l] by (auto split: if_splits)
  qed
qed

lemma run_reachable: "reachable s \<Longrightarrow> run s es = Inr s' \<Longrightarrow> reachable s'"
proof (induction s es rule: run.induct)
  case (1 s)
  then show ?case by simp
next
  case (2 s fifo es)
  then show ?case by (auto intro: reachable_timer)
next
  case (3 s es)
  from "3.prems"(2) obtain r s1 where d: "decode s = Inr (r, s1)" and r: "run s1 es = Inr s'"
    by (auto split: sum.splits)
  from "3.prems"(1) d have "reachable s1" by (rule reachable_poll)
  with "3.IH" d r show ?case by blast
qed

lemma decodeLoop_error: "decodeLoop rawPulses i nd = Inl e \<Longrightarrow> e = ValueError"
proof (induction rawPulses i nd rule: decodeLoop.induct)
  case (1 rawPulses i nd)
  note eq = decodeLoop.simps [of rawPulses i nd]
  from "1.prems" "1.IH" show ?case
    unfolding eq by (auto simp: shl1_def split: if_splits sum.splits)
qed

lemma decode_if_command_error: "decode_if_command s = Inl e \<Longrightarrow> e = ValueError"
  by (auto simp: decode_if_command_def decodeCommand_def Let_def
      split: if_splits sum.splits dest: decodeLoop_error)

lemma decode_error:
  "length (rawRepeatTimeBuf s) \<noteq> 1 \<Longrightarrow> decode s = Inl e \<Longrightarrow> e = ValueError"
proof -
  assume l: "length (rawRepeatTimeBuf s) \<noteq> 1" and e: "decode s = Inl e"
  show ?thesis
  proof (cases "decode_if_command s")
    case (Inl e')
    with e have "e' = e" by (simp add: decode_def)
    with Inl show ?thesis by (auto dest: decode_if_command_error)
  next
    case (Inr p)
    obtain ret s1 where p: "p = (ret, s1)" by (cases p)
    have "length (rawRepeatTimeBuf s1) \<noteq> 1"
      using decode_if_command_frame [OF Inr [unfolded p]] l by simp
    from decode_if_repeat_result [OF this] e Inr p show ?thesis
      by (auto simp: decode_def split: if_splits)
  qed
qed

text \<open>
  A state in which every flagged buffer is empty is a fixed point of the poll.
\<close>

lemma decode_quiescent:
  "(newCommandFlag s \<longrightarrow> rawCommandTimeBuf s = []) \<Longrightarrow>
   (newRepeatFlag s \<longrightarrow> rawRepeatTimeBuf s = []) \<Longrightarrow> decode s = Inr (False, s)"
  by (cases s)
    (auto simp: decode_def decode_if_command_def decodeCommand_def decode_if_repeat_def Let_def)

text \<open>
  When the first statement of \<^verbatim>\<open>decode\<close> does not return, the result of the call
  is that of the second statement, and it leaves every flagged buffer empty.
\<close>

lemma decode_after_failed_command:
  assumes "decode_if_command s = Inr (False, s1)" and "length (rawRepeatTimeBuf s) \<noteq> 1"
  shows "\<exists>s'. decode s = Inr (repeatAccepted s, s')
     \<and> necData s' = (if repeatAccepted s \<and> \<not> commandRepeat s then 0xffffffff else necData s1)
     \<and> (newCommandFlag s' \<longrightarrow> rawCommandTimeBuf s' = [])
     \<and> (newRepeatFlag s' \<longrightarrow> rawRepeatTimeBuf s' = [])"
proof -
  note f = decode_if_command_frame [OF assms(1)]
  from f assms(2) have l: "length (rawRepeatTimeBuf s1) \<noteq> 1" by simp
  from f have a: "repeatAccepted s1 = repeatAccepted s" by (simp add: repeatAccepted_def)
  have "decode s = decode_if_repeat s1"
    using assms(1) by (simp add: decode_def)
  then show ?thesis
    unfolding decode_if_repeat_result [OF l] a using f
    by (auto simp: repeatAccepted_def)
qed

section \<open>The claims\<close>

subsection \<open>C1: a command burst that fails to decode\<close>

text \<open>
  C1, as stated: for every finalized command burst on which frame decoding fails,
  \<^verbatim>\<open>decode()\<close> returns false and \<^verbatim>\<open>necData\<close> has the same value after the call
  as before it. On a fresh decoder a command burst of four values with an invalid
  start sequence is finalized, and then a repeat burst. Frame decoding fails, and the
  poll goes on to the repeat check: it returns true and sets \<^verbatim>\<open>necData\<close> to
  \<open>0xffffffff\<close>.
\<close>

theorem C1_counterexample:
  "run (init False) [ticks 8, ticks 8, ticks 8, ticks 8, timeout, ticks 1152, ticks 288, timeout]
     = Inr ((init False)\<lparr>rawRepeatTimeBuf := [9000, 2250], rawCommandTimeBuf := [62, 62, 62, 62],
              rawCommandTimeBuffer := Some [], newRepeatFlag := True, newCommandFlag := True\<rparr>)
   \<and> decodeCommand ((init False)\<lparr>rawRepeatTimeBuf := [9000, 2250],
              rawCommandTimeBuffer := Some [], newRepeatFlag := True, newCommandFlag := True\<rparr>)
          [62, 62, 62, 62]
     = Inr (StartingPulseError, (init False)\<lparr>rawRepeatTimeBuf := [9000, 2250],
              rawCommandTimeBuffer := Some [], newRepeatFlag := True\<rparr>)
   \<and> decode ((init False)\<lparr>rawRepeatTimeBuf := [9000, 2250], rawCommandTimeBuf := [62, 62, 62, 62],
              rawCommandTimeBuffer := Some [], newRepeatFlag := True, newCommandFlag := True\<rparr>)
     = Inr (True, (init False)\<lparr>rawCommandTimeBuffer := Some [], newRepeatFlag := True,
              necData := 0xffffffff\<rparr>)"
  by (simp add: producer_simps consumer_simps)

text \<open>
  C1, amended: for every finalized command burst on which frame decoding fails,
  \<^verbatim>\<open>decode()\<close> returns false unless a pending repeat burst is accepted in the same
  call; then it returns true, and with \<^verbatim>\<open>commandRepeat\<close> false it sets
  \<^verbatim>\<open>necData\<close> to \<open>0xffffffff\<close>. When the burst has fewer than 2 values and no
  repeat code is written, \<^verbatim>\<open>necData\<close> has the same value after the call as before it.
  The hypothesis on the repeat buffer holds in every reachable state.
\<close>

theorem C1_failed_command:
  assumes "newCommandFlag s"
    and "decodeCommand (s\<lparr>rawCommandTimeBuf := []\<rparr>) (rawCommandTimeBuf s) = Inr (v, s1)"
    and "v \<noteq> Decoded"
    and "length (rawRepeatTimeBuf s) \<noteq> 1"
  shows "\<exists>s'. decode s = Inr (repeatAccepted s, s')
     \<and> (repeatAccepted s \<and> \<not> commandRepeat s \<longrightarrow> necData s' = 0xffffffff)
     \<and> (length (rawCommandTimeBuf s) < 2 \<and> \<not> (repeatAccepted s \<and> \<not> commandRepeat s)
          \<longrightarrow> necData s' = necData s)"
proof -
  have c: "decode_if_command s = Inr (False, s1)"
    using assms(1,2,3) by (simp add: decode_if_command_def Let_def)
  from decode_after_failed_command [OF c assms(4)] obtain s' where
    d: "decode s = Inr (repeatAccepted s, s')"
    and n: "necData s' = (if repeatAccepted s \<and> \<not> commandRepeat s then 0xffffffff else necData s1)"
    by blast
  have "necData s1 = necData s" if "length (rawCommandTimeBuf s) < 2"
    using decodeCommand_short [OF that, where s = "s\<lparr>rawCommandTimeBuf := []\<rparr>"] assms(2) by auto
  with d n show ?thesis
    by auto
qed

text \<open>
  A burst of no value with a prior \<open>necData = 0x80000000\<close> and no repeat burst
  pending, after which \<^verbatim>\<open>necData\<close> is unchanged; a burst whose data pair is invalid,
  with no repeat burst pending, on which the poll returns false; and a burst with an
  invalid start sequence in front of a repeat burst, on which the poll returns true
  with the repeat code.
\<close>

theorem C1_witness:
  "(\<exists>s'. decode ((init True)\<lparr>rawCommandTimeBuf := [], newCommandFlag := True, necData := 0x80000000\<rparr>)
            = Inr (False, s') \<and> necData s' = 0x80000000)
   \<and> (\<exists>s'. decode ((init False)\<lparr>rawCommandTimeBuf := [9000, 4500, 562, 900], newCommandFlag := True\<rparr>)
            = Inr (False, s'))
   \<and> (\<exists>s'. decode ((init False)\<lparr>rawRepeatTimeBuf := [9000, 2250],
              rawCommandTimeBuf := [62, 62, 62, 62], newRepeatFlag := True, newCommandFlag := True\<rparr>)
            = Inr (True, s') \<and> necData s' = 0xffffffff)"
proof -
  let ?a = "(init True)\<lparr>rawCommandTimeBuf := [], newCommandFlag := True, necData := 0x80000000\<rparr>"
  let ?b = "(init False)\<lparr>rawCommandTimeBuf := [9000, 4500, 562, 900], newCommandFlag := True\<rparr>"
  let ?c = "(init False)\<lparr>rawRepeatTimeBuf := [9000, 2250],
              rawCommandTimeBuf := [62, 62, 62, 62], newRepeatFlag := True, newCommandFlag := True\<rparr>"
  have fa: "newCommandFlag ?a" and fb: "newCommandFlag ?b" and fc: "newCommandFlag ?c"
    and la: "length (rawRepeatTimeBuf ?a) \<noteq> 1" and lb: "length (rawRepeatTimeBuf ?b) \<noteq> 1"
    and lc: "length (rawRepeatTimeBuf ?c) \<noteq> 1"
    by (simp_all add: init_def)
  have da: "decodeCommand (?a\<lparr>rawCommandTimeBuf := []\<rparr>) (rawCommandTimeBuf ?a)
      = Inr (TooShort, (init True)\<lparr>newCommandFlag := True, necData := 0x80000000\<rparr>)"
    by (simp add: consumer_simps init_def)
  have db: "decodeCommand (?b\<lparr>rawCommandTimeBuf := []\<rparr>) (rawCommandTimeBuf ?b)
      = Inr (InvalidZero, init False)"
    by (simp add: consumer_simps init_def)
  have dc: "decodeCommand (?c\<lparr>rawCommandTimeBuf := []\<rparr>) (rawCommandTimeBuf ?c)
      = Inr (StartingPulseError, (init False)\<lparr>rawRepeatTimeBuf := [9000, 2250], newRepeatFlag := True\<rparr>)"
    by (simp add: consumer_simps init_def)
  have n: "\<not> repeatAccepted ?a" "\<not> repeatAccepted ?b" "repeatAccepted ?c"
    by (simp_all add: repeatAccepted_def init_def match_def ALLOWED_DEVIATION_def)
  from C1_failed_command [OF fa da _ la] C1_failed_command [OF fb db _ lb]
    C1_failed_command [OF fc dc _ lc] n
  show ?thesis
    by (simp add: init_def)
qed

subsection \<open>C2: finalizing a burst while one is pending\<close>

text \<open>
  C2 claims that a burst finalized while an unconsumed burst of the same kind is
  pending replaces it. Evaluating the producer on two command bursts of four values
  each, with no poll between them: the command buffer then holds the eight values
  of both bursts, the second behind the first. Two repeat bursts, on the contrary,
  leave the second one only.
\<close>

theorem C2_command_bursts_concatenated:
  "run (init False)
      [ticks 1152, ticks 576, ticks 72, ticks 72, timeout,
       ticks 1152, ticks 576, ticks 72, ticks 216, timeout]
    = Inr ((init False)\<lparr>rawCommandTimeBuffer := Some [],
             rawCommandTimeBuf := [9000, 4500, 562, 562] @ [9000, 4500, 562, 1687],
             newCommandFlag := True\<rparr>)
   \<and> run (init False) [ticks 1100, ticks 280, timeout, ticks 1152, ticks 288, timeout]
    = Inr ((init False)\<lparr>rawRepeatTimeBuf := [9000, 2250], newRepeatFlag := True\<rparr>)"
  by (simp add: producer_simps)

subsection \<open>C3: the start sequence\<close>

text \<open>
  C3: for every command burst of length greater than 1, the frame decoder fails
  with "invalid start sequence" exactly when both start checks fail, that is when
  the first value does not match 9000 and the second does not match 4500. So a burst
  whose first value does not match 9000 while its second value matches 4500 is not
  rejected at the start sequence.
\<close>

theorem C3_start_rejected_iff_both_fail:
  "1 < length rawPulses \<Longrightarrow>
     (\<exists>s'. decodeCommand s rawPulses = Inr (StartingPulseError, s')) \<longleftrightarrow>
       \<not> match (of_int (rawPulses ! 0)) 9000 \<and> \<not> match (of_int (rawPulses ! 1)) 4500"
  using decodeLoop_verdict [of rawPulses 2 0]
  by (auto simp: decodeCommand_def Let_def split: sum.splits)

text \<open>
  A burst with an invalid leading mark and a valid second value: it is not rejected
  for its start sequence, and here it is decoded.
\<close>

theorem C3_witness:
  "1 < length [100, 4500, 562, 1687 :: int]
    \<and> \<not> match (of_int ([100, 4500, 562, 1687] ! 0)) 9000
    \<and> match (of_int ([100, 4500, 562, 1687] ! 1)) 4500
    \<and> \<not> (\<exists>s'. decodeCommand (init False) [100, 4500, 562, 1687]
              = Inr (StartingPulseError, s'))
    \<and> decodeCommand (init False) [100, 4500, 562, 1687]
        = Inr (Decoded, (init False)\<lparr>necData := 0x80000000\<rparr>)"
  using C3_start_rejected_iff_both_fail [of "[100, 4500, 562, 1687]" "init False"]
  by (simp add: consumer_simps init_def)

subsection \<open>C4: a valid command burst of 34 values\<close>

text \<open>
  C4: for every pending command burst of 34 values whose first value matches 9000,
  whose second value matches 4500 and whose 16 data pairs each pass the zero test or
  the one test, \<^verbatim>\<open>decode()\<close> returns true, and in \<^verbatim>\<open>necData\<close> the data pair
  \<open>k\<close> (counted from 0) determines bit \<open>31 - k\<close>: the bit is set exactly when the
  pair passes the one test and clear exactly when it passes the zero test. The bits
  15 to 0 are clear and \<^verbatim>\<open>necData\<close> is below \<open>2^32\<close>.
\<close>

theorem C4_valid_burst_decoded:
  assumes "newCommandFlag s" and "rawCommandTimeBuf s = burst" and "length burst = 34"
    and "match (of_int (burst ! 0)) 9000" and "match (of_int (burst ! 1)) 4500"
    and "\<forall>k<16. checkZero (of_int (burst ! (2 * k + 2))) (of_int (burst ! (2 * k + 3)))
               \<or> checkOne (of_int (burst ! (2 * k + 2))) (of_int (burst ! (2 * k + 3)))"
  shows "\<exists>s'. decode s = Inr (True, s')
     \<and> (\<forall>k<16. (bit (necData s') (31 - k)
                  \<longleftrightarrow> checkOne (of_int (burst ! (2 * k + 2))) (of_int (burst ! (2 * k + 3))))
              \<and> (\<not> bit (necData s') (31 - k)
                  \<longleftrightarrow> checkZero (of_int (burst ! (2 * k + 2))) (of_int (burst ! (2 * k + 3)))))
     \<and> (\<forall>n<16. \<not> bit (necData s') n)
     \<and> 0 \<le> necData s' \<and> necData s' < 2 ^ 32"
proof -
  let ?one = "\<lambda>k. checkOne (of_int (burst ! (2 * k + 2))) (of_int (burst ! (2 * k + 3)))"
  let ?zero = "\<lambda>k. checkZero (of_int (burst ! (2 * k + 2))) (of_int (burst ! (2 * k + 3)))"
  have valid: "?zero k \<or> ?one k" if "k < 16" for k
    using assms(6) that by blast
  from decodeLoop_bits_34 [OF assms(3) valid]
  obtain nd where l: "decodeLoop burst 2 0 = Inr (Decoded, nd)"
    and high: "\<forall>k<16. bit nd (31 - k) \<longleftrightarrow> ?one k"
    and low: "\<forall>n<16. \<not> bit nd n"
    by blast
  let ?s' = "s\<lparr>rawCommandTimeBuf := [], newCommandFlag := False, necData := nd, err := Some 0\<rparr>"
  have "decodeCommand (s\<lparr>rawCommandTimeBuf := []\<rparr>) burst
      = Inr (Decoded, s\<lparr>rawCommandTimeBuf := [], newCommandFlag := False, necData := nd\<rparr>)"
    using assms(3,4) l by (cases s) (simp add: decodeCommand_def Let_def)
  then have d: "decode s = Inr (True, ?s')"
    using assms(1,2) by (simp add: decode_def decode_if_command_def Let_def)
  have excl: "\<not> ?one k \<longleftrightarrow> ?zero k" if "k < 16" for k
    using valid [OF that] checkZero_sum checkOne_sum by blast
  have both: "\<forall>k<16. (bit nd (31 - k) \<longleftrightarrow> ?one k) \<and> (\<not> bit nd (31 - k) \<longleftrightarrow> ?zero k)"
    using high excl by blast
  have range: "0 \<le> nd \<and> nd < 2 ^ 32"
    using decodeLoop_range [OF l] by simp
  have n: "necData ?s' = nd"
    by simp
  from d both low range have "decode s = Inr (True, ?s')
     \<and> (\<forall>k<16. (bit (necData ?s') (31 - k) \<longleftrightarrow> ?one k)
              \<and> (\<not> bit (necData ?s') (31 - k) \<longleftrightarrow> ?zero k))
     \<and> (\<forall>n<16. \<not> bit (necData ?s') n)
     \<and> 0 \<le> necData ?s' \<and> necData ?s' < 2 ^ 32"
    unfolding n by (intro conjI) (assumption | erule conjunct1 | erule conjunct2)+
  then show ?thesis
    by (rule exI [of _ ?s'])
qed

text \<open>
  The burst of eight zero pairs and eight one pairs: the bits 31 to 24 are clear and
  the bits 23 to 16 are set, and the poll computes \<open>0x00ff0000\<close>.
\<close>

theorem C4_witness:
  "length nec_burst_00ff = 34
   \<and> match (of_int (nec_burst_00ff ! 0)) 9000 \<and> match (of_int (nec_burst_00ff ! 1)) 4500
   \<and> list_all (\<lambda>k. checkZero (of_int (nec_burst_00ff ! (2 * k + 2))) (of_int (nec_burst_00ff ! (2 * k + 3)))
            \<or> checkOne (of_int (nec_burst_00ff ! (2 * k + 2))) (of_int (nec_burst_00ff ! (2 * k + 3))))
        [0..<16]
   \<and> (\<exists>s'. decode ((init False)\<lparr>rawCommandTimeBuf := nec_burst_00ff, newCommandFlag := True\<rparr>)
               = Inr (True, s')
          \<and> \<not> bit (necData s') 31 \<and> \<not> bit (necData s') 24
          \<and> bit (necData s') 23 \<and> bit (necData s') 16 \<and> \<not> bit (necData s') 15
          \<and> 0 \<le> necData s' \<and> necData s' < 2 ^ 32)
   \<and> decode ((init False)\<lparr>rawCommandTimeBuf := nec_burst_00ff, newCommandFlag := True\<rparr>)
       = Inr (True, (init False)\<lparr>necData := 0x00ff0000, err := Some 0\<rparr>)"
proof -
  let ?s = "(init False)\<lparr>rawCommandTimeBuf := nec_burst_00ff, newCommandFlag := True\<rparr>"
  have f: "newCommandFlag ?s" and b: "rawCommandTimeBuf ?s = nec_burst_00ff"
    by simp_all
  have len: "length nec_burst_00ff = 34"
    by (simp add: nec_burst_00ff_def)
  have start: "match (of_int (nec_burst_00ff ! 0)) 9000" "match (of_int (nec_burst_00ff ! 1)) 4500"
    by (simp_all add: nec_burst_00ff_def match_def ALLOWED_DEVIATION_def)
  have pairs: "\<forall>k<16. checkZero (of_int (nec_burst_00ff ! (2 * k + 2))) (of_int (nec_burst_00ff ! (2 * k + 3)))
            \<or> checkOne (of_int (nec_burst_00ff ! (2 * k + 2))) (of_int (nec_burst_00ff ! (2 * k + 3)))"
    unfolding nec_burst_00ff_def
    by (simp add: eval_nat_numeral All_less_Suc checkOne_def checkZero_def DATA_PULSE_WIDTH_def
        match_def ALLOWED_DEVIATION_def)
  from C4_valid_burst_decoded [OF f b len start pairs]
  obtain s' where d: "decode ?s = Inr (True, s')"
    and high: "\<forall>k<16. (bit (necData s') (31 - k)
          \<longleftrightarrow> checkOne (of_int (nec_burst_00ff ! (2 * k + 2))) (of_int (nec_burst_00ff ! (2 * k + 3))))"
    and low: "\<forall>n<16. \<not> bit (necData s') n"
    and range: "0 \<le> necData s' \<and> necData s' < 2 ^ 32"
    by blast
  have "\<not> bit (necData s') 31" "\<not> bit (necData s') 24" "bit (necData s') 23" "bit (necData s') 16"
    using high [rule_format, of 0] high [rule_format, of 7] high [rule_format, of 8]
      high [rule_format, of 15]
    by (simp_all add: nec_burst_00ff_def checkOne_def DATA_PULSE_WIDTH_def match_def
        ALLOWED_DEVIATION_def)
  moreover have "\<not> bit (necData s') 15"
    using low by simp
  moreover have "decode ?s = Inr (True, (init False)\<lparr>necData := 0x00ff0000, err := Some 0\<rparr>)"
    by (simp add: consumer_simps init_def nec_burst_00ff_def)
  moreover have "list_all (\<lambda>k. checkZero (of_int (nec_burst_00ff ! (2 * k + 2))) (of_int (nec_burst_00ff ! (2 * k + 3)))
            \<or> checkOne (of_int (nec_burst_00ff ! (2 * k + 2))) (of_int (nec_burst_00ff ! (2 * k + 3))))
        [0..<16]"
    using pairs by (simp add: list_all_iff)
  ultimately show ?thesis
    using d range len start by blast
qed

subsection \<open>C5: the order of the two checks in one poll\<close>

text \<open>
  C5, as stated: the repeat-ready flag is checked only if no command burst is ready,
  so a call that finds a pending command burst never processes a pending repeat burst.
  A command burst \<open>[62, 62, 62]\<close> and then a repeat burst are finalized on a fresh
  decoder. The poll finds the command flag set, fails to decode the command burst,
  and goes on to consume the repeat burst: it returns true with the repeat code.
\<close>

theorem C5_counterexample:
  "run (init False) [ticks 8, ticks 8, ticks 8, timeout, ticks 1152, ticks 288, timeout]
     = Inr ((init False)\<lparr>rawRepeatTimeBuf := [9000, 2250], rawCommandTimeBuf := [62, 62, 62],
              rawCommandTimeBuffer := Some [], newRepeatFlag := True, newCommandFlag := True\<rparr>)
   \<and> decode ((init False)\<lparr>rawRepeatTimeBuf := [9000, 2250], rawCommandTimeBuf := [62, 62, 62],
              rawCommandTimeBuffer := Some [], newRepeatFlag := True, newCommandFlag := True\<rparr>)
     = Inr (True, (init False)\<lparr>rawRepeatTimeBuf := [], rawCommandTimeBuf := [],
              rawCommandTimeBuffer := Some [], newRepeatFlag := True, newCommandFlag := False,
              necData := 0xffffffff\<rparr>)"
  by (simp add: producer_simps consumer_simps)

text \<open>
  C5, amended: in every call to \<^verbatim>\<open>decode()\<close> that finds the command-ready flag set
  (and whose frame decoder does not raise), the command burst is handled first and
  the frame decoder touches neither the repeat buffer nor the repeat flag. If the burst
  decodes, the call returns true at once and the repeat burst stays pending. If it
  fails, the call goes on to the repeat-ready check, whose result is the result of
  the call.
\<close>

theorem C5_command_checked_first:
  assumes "newCommandFlag s"
    and "decodeCommand (s\<lparr>rawCommandTimeBuf := []\<rparr>) (rawCommandTimeBuf s) = Inr (v, s1)"
  shows "rawRepeatTimeBuf s1 = rawRepeatTimeBuf s \<and> newRepeatFlag s1 = newRepeatFlag s
    \<and> (if v = Decoded then decode s = Inr (True, s1\<lparr>err := Some 0\<rparr>)
        else decode s = decode_if_repeat s1)"
proof -
  have c: "decode_if_command s = Inr (v = Decoded, if v = Decoded then s1\<lparr>err := Some 0\<rparr> else s1)"
    using assms by (simp add: decode_if_command_def Let_def)
  from decode_if_command_frame [OF c] have
    "rawRepeatTimeBuf s1 = rawRepeatTimeBuf s \<and> newRepeatFlag s1 = newRepeatFlag s"
    by (simp split: if_splits)
  with c show ?thesis
    by (simp add: decode_def)
qed

text \<open>
  Both cases with a repeat burst pending: a command burst that decodes, after which
  the repeat buffer still holds its two values, and one that fails.
\<close>

theorem C5_witness:
  "decode ((init False)\<lparr>rawRepeatTimeBuf := [9000, 2250], rawCommandTimeBuf := [9000, 4500, 562, 1687],
              newRepeatFlag := True, newCommandFlag := True\<rparr>)
     = Inr (True, (init False)\<lparr>rawRepeatTimeBuf := [9000, 2250], rawCommandTimeBuf := [],
              newRepeatFlag := True, newCommandFlag := False, necData := 0x80000000, err := Some 0\<rparr>)
   \<and> decode ((init False)\<lparr>rawRepeatTimeBuf := [9000, 2250], rawCommandTimeBuf := [62, 62, 62],
              newRepeatFlag := True, newCommandFlag := True\<rparr>)
     = decode_if_repeat ((init False)\<lparr>rawRepeatTimeBuf := [9000, 2250], rawCommandTimeBuf := [],
              newRepeatFlag := True, newCommandFlag := False, necData := 0\<rparr>)"
proof -
  let ?a = "(init False)\<lparr>rawRepeatTimeBuf := [9000, 2250], rawCommandTimeBuf := [9000, 4500, 562, 1687],
              newRepeatFlag := True, newCommandFlag := True\<rparr>"
  let ?a1 = "(init False)\<lparr>rawRepeatTimeBuf := [9000, 2250], rawCommandTimeBuf := [],
              newRepeatFlag := True, newCommandFlag := False, necData := 0x80000000\<rparr>"
  let ?b = "(init False)\<lparr>rawRepeatTimeBuf := [9000, 2250], rawCommandTimeBuf := [62, 62, 62],
              newRepeatFlag := True, newCommandFlag := True\<rparr>"
  let ?b1 = "(init False)\<lparr>rawRepeatTimeBuf := [9000, 2250], rawCommandTimeBuf := [],
              newRepeatFlag := True, newCommandFlag := False, necData := 0\<rparr>"
  have fa: "newCommandFlag ?a" and fb: "newCommandFlag ?b"
    by (simp_all add: init_def)
  have da: "decodeCommand (?a\<lparr>rawCommandTimeBuf := []\<rparr>) (rawCommandTimeBuf ?a) = Inr (Decoded, ?a1)"
    by (simp add: consumer_simps init_def)
  have db: "decodeCommand (?b\<lparr>rawCommandTimeBuf := []\<rparr>) (rawCommandTimeBuf ?b) = Inr (StartingPulseError, ?b1)"
    by (simp add: consumer_simps init_def)
  from C5_command_checked_first [OF fa da] C5_command_checked_first [OF fb db]
  show ?thesis by (simp add: init_def)
qed

subsection \<open>C6: the tolerance boundary\<close>

text \<open>
  C6, as stated: under the predicate \<open>|v - e| < v * 0.20\<close> a pulse of
  \<open>560 * 1.19\<close> microseconds matches 560 and a pulse of \<open>560 * 1.21\<close> does not.
  The statement is false for \<^const>\<open>match\<close>: the second pulse matches as well.
\<close>

theorem C6_counterexample:
  "\<not> (match (560 * 1.19) 560 \<and> \<not> match (560 * 1.21) 560)"
  by (simp add: match_def ALLOWED_DEVIATION_def)

text \<open>
  C6, amended: a pulse of \<open>560 * 1.19\<close> microseconds matches 560, and so does a
  pulse of \<open>560 * 1.21\<close>. Since the tolerance is a fifth of the observed value, the
  values that match 560 are those strictly between \<open>1400 / 3\<close> and
  \<open>700 = 560 * 1.25\<close>: the upper edge is at 25 per cent above the expected value.
\<close>

theorem C6_tolerance_boundary:
  "match (560 * 1.19) 560 \<and> match (560 * 1.21) 560 \<and> \<not> match (560 * 1.25) 560
    \<and> (\<forall>v. match v 560 \<longleftrightarrow> 1400 / 3 < v \<and> v < 700)"
  by (auto simp add: match_def ALLOWED_DEVIATION_def abs_if)

subsection \<open>C7: an accepted repeat burst\<close>

text \<open>
  C7 claims that for every pending repeat burst that matches 9000 and 2250, when no
  pending command burst decodes successfully first, \<^verbatim>\<open>decode()\<close> returns true and,
  with \<^verbatim>\<open>commandRepeat\<close> true, \<^verbatim>\<open>necData\<close> keeps its prior value. Evaluating the
  code on a decoder constructed with \<^verbatim>\<open>commandRepeat\<close> true: a command frame is
  decoded (\<open>necData = 0x80000000\<close>), then a burst of four values with an invalid
  start sequence and a repeat burst are finalized. The poll returns true with
  \<^verbatim>\<open>necData = 0\<close>: line 122 has reset the field before the frame was validated,
  and the key that is held down is lost, against the comment of lines 162 to 165
  ("Returns the key value when holding down the key"). With a burst of no value in
  the place of the failing one, whose failure path (line 140) changes nothing, the same
  poll returns true with \<open>necData = 0x80000000\<close>.
\<close>

theorem C7_held_key_lost:
  "run (init True)
      [ticks 1152, ticks 576, ticks 72, ticks 216, timeout, Poll,
       ticks 8, ticks 8, ticks 8, ticks 8, timeout, ticks 1152, ticks 288, timeout]
     = Inr ((init True)\<lparr>rawRepeatTimeBuf := [9000, 2250], rawCommandTimeBuf := [62, 62, 62, 62],
              rawCommandTimeBuffer := Some [], newRepeatFlag := True, newCommandFlag := True,
              necData := 0x80000000, err := Some 0\<rparr>)
   \<and> decode ((init True)\<lparr>rawRepeatTimeBuf := [9000, 2250], rawCommandTimeBuf := [62, 62, 62, 62],
              rawCommandTimeBuffer := Some [], newRepeatFlag := True, newCommandFlag := True,
              necData := 0x80000000, err := Some 0\<rparr>)
     = Inr (True, (init True)\<lparr>rawCommandTimeBuffer := Some [], newRepeatFlag := True,
              necData := 0, err := Some 0\<rparr>)
   \<and> run (init True)
      [ticks 1152, ticks 576, ticks 72, ticks 216, timeout, Poll,
       timeout, ticks 1152, ticks 288, timeout]
     = Inr ((init True)\<lparr>rawRepeatTimeBuf := [9000, 2250],
              rawCommandTimeBuffer := Some [], newRepeatFlag := True, newCommandFlag := True,
              necData := 0x80000000, err := Some 0\<rparr>)
   \<and> decode ((init True)\<lparr>rawRepeatTimeBuf := [9000, 2250],
              rawCommandTimeBuffer := Some [], newRepeatFlag := True, newCommandFlag := True,
              necData := 0x80000000, err := Some 0\<rparr>)
     = Inr (True, (init True)\<lparr>rawCommandTimeBuffer := Some [], newRepeatFlag := True,
              necData := 0x80000000, err := Some 0\<rparr>)"
  by (simp add: producer_simps consumer_simps)

subsection \<open>C8: command bursts of fewer than two values\<close>

text \<open>
  C8, as stated: for every pending command burst of length 0 or 1, \<^verbatim>\<open>decode()\<close>
  returns false and \<^verbatim>\<open>necData\<close> is unchanged. A command burst of one value and then a
  repeat burst are finalized on a fresh decoder: the poll returns true and sets
  \<^verbatim>\<open>necData\<close> to \<open>0xffffffff\<close>.
\<close>

theorem C8_counterexample:
  "run (init False) [ticks 8, timeout, ticks 1152, ticks 288, timeout]
     = Inr ((init False)\<lparr>rawRepeatTimeBuf := [9000, 2250], rawCommandTimeBuf := [62],
              rawCommandTimeBuffer := Some [], newRepeatFlag := True, newCommandFlag := True\<rparr>)
   \<and> decode ((init False)\<lparr>rawRepeatTimeBuf := [9000, 2250], rawCommandTimeBuf := [62],
              rawCommandTimeBuffer := Some [], newRepeatFlag := True, newCommandFlag := True\<rparr>)
     = Inr (True, (init False)\<lparr>rawRepeatTimeBuf := [], rawCommandTimeBuf := [],
              rawCommandTimeBuffer := Some [], newRepeatFlag := True, newCommandFlag := False,
              necData := 0xffffffff\<rparr>)"
  by (simp add: producer_simps consumer_simps)

text \<open>
  C8, amended: for every pending command burst of length 0 or 1, the frame decoder
  fails and changes nothing, and \<^verbatim>\<open>decode()\<close> returns false with \<^verbatim>\<open>necData\<close>
  unchanged unless a pending repeat burst is accepted in the same call; then it
  returns true, and \<^verbatim>\<open>necData\<close> becomes \<open>0xffffffff\<close> when \<^verbatim>\<open>commandRepeat\<close> is
  false. The hypothesis on the repeat buffer holds in every reachable state.
\<close>

theorem C8_short_burst:
  assumes "newCommandFlag s" and "length (rawCommandTimeBuf s) < 2"
    and "length (rawRepeatTimeBuf s) \<noteq> 1"
  shows "decodeCommand (s\<lparr>rawCommandTimeBuf := []\<rparr>) (rawCommandTimeBuf s)
           = Inr (TooShort, s\<lparr>rawCommandTimeBuf := []\<rparr>)
    \<and> (\<exists>s'. decode s = Inr (repeatAccepted s, s')
          \<and> necData s' = (if repeatAccepted s \<and> \<not> commandRepeat s then 0xffffffff else necData s))"
proof -
  have d: "decodeCommand (s\<lparr>rawCommandTimeBuf := []\<rparr>) (rawCommandTimeBuf s)
           = Inr (TooShort, s\<lparr>rawCommandTimeBuf := []\<rparr>)"
    using assms(2) by (rule decodeCommand_short)
  with assms(1) have "decode_if_command s = Inr (False, s\<lparr>rawCommandTimeBuf := []\<rparr>)"
    by (simp add: decode_if_command_def Let_def)
  from decode_after_failed_command [OF this assms(3)] d show ?thesis
    by auto
qed

text \<open>
  A command burst of one value with no repeat burst pending and a prior
  \<open>necData = 0x80000000\<close>.
\<close>

theorem C8_witness:
  "newCommandFlag ((init True)\<lparr>rawCommandTimeBuf := [62], newCommandFlag := True, necData := 0x80000000\<rparr>)
   \<and> length (rawCommandTimeBuf ((init True)\<lparr>rawCommandTimeBuf := [62], newCommandFlag := True, necData := 0x80000000\<rparr>)) < 2
   \<and> \<not> repeatAccepted ((init True)\<lparr>rawCommandTimeBuf := [62], newCommandFlag := True, necData := 0x80000000\<rparr>)
   \<and> (\<exists>s'. decode ((init True)\<lparr>rawCommandTimeBuf := [62], newCommandFlag := True, necData := 0x80000000\<rparr>)
             = Inr (False, s') \<and> necData s' = 0x80000000)"
proof -
  let ?s = "(init True)\<lparr>rawCommandTimeBuf := [62], newCommandFlag := True, necData := 0x80000000\<rparr>"
  have h: "newCommandFlag ?s" "length (rawCommandTimeBuf ?s) < 2" "length (rawRepeatTimeBuf ?s) \<noteq> 1"
    by (simp_all add: init_def)
  have n: "\<not> repeatAccepted ?s" "necData ?s = 0x80000000"
    by (simp_all add: init_def repeatAccepted_def)
  from C8_short_burst [OF h] h n show ?thesis
    by simp
qed

subsection \<open>C9: polling again without producer activity\<close>

text \<open>
  C9, as stated: without producer activity, every call to \<^verbatim>\<open>decode()\<close> after the
  first returns false and leaves \<^verbatim>\<open>necData\<close> unchanged. A command burst and then a
  repeat burst are finalized on a fresh decoder and polled once: the first call decodes
  the command (\<open>necData = 0x80000000\<close>) and leaves the repeat burst pending. The second
  call returns true and sets \<^verbatim>\<open>necData\<close> to \<open>0xffffffff\<close>.
\<close>

theorem C9_counterexample:
  "run (init False)
      [ticks 1152, ticks 576, ticks 72, ticks 216, timeout, ticks 1152, ticks 288, timeout, Poll]
     = Inr ((init False)\<lparr>rawRepeatTimeBuf := [9000, 2250], rawCommandTimeBuffer := Some [],
              newRepeatFlag := True, necData := 0x80000000, err := Some 0\<rparr>)
   \<and> decode ((init False)\<lparr>rawRepeatTimeBuf := [9000, 2250], rawCommandTimeBuffer := Some [],
              newRepeatFlag := True, necData := 0x80000000, err := Some 0\<rparr>)
     = Inr (True, (init False)\<lparr>rawCommandTimeBuffer := Some [],
              newRepeatFlag := True, necData := 0xffffffff, err := Some 0\<rparr>)"
  by (simp add: producer_simps consumer_simps)

text \<open>
  C9, amended: after a call to \<^verbatim>\<open>decode()\<close> has returned, and without producer
  activity, the next call returns too, and every call after that one returns false and
  leaves the whole state, \<^verbatim>\<open>necData\<close> included, unchanged. When the first call
  returned false, this holds from the next call on. (After a first call that returned
  true, the next call can return true once more.) The hypothesis on the repeat buffer
  holds in every reachable state.
\<close>

theorem C9_polling_settles:
  assumes "decode s = Inr (r1, s1)" and "length (rawRepeatTimeBuf s) \<noteq> 1"
  shows "\<exists>r2 s2. decode s1 = Inr (r2, s2) \<and> decode s2 = Inr (False, s2)
           \<and> (\<not> r1 \<longrightarrow> \<not> r2 \<and> s2 = s1)"
proof -
  from assms(1) obtain ret s0 where c: "decode_if_command s = Inr (ret, s0)"
    and d: "if ret then r1 \<and> s1 = s0 else decode s = Inr (r1, s1)"
    by (auto simp: decode_def split: sum.splits if_splits)
  note f = decode_if_command_frame [OF c]
  show ?thesis
  proof (cases ret)
    case True
    with d f have s1: "s1 = s0" and r1: r1 and nf: "\<not> newCommandFlag s1" by auto
    have l: "length (rawRepeatTimeBuf s1) \<noteq> 1" using f assms(2) s1 by simp
    have "decode_if_command s1 = Inr (False, s1)"
      using nf by (simp add: decode_if_command_def)
    from decode_after_failed_command [OF this l] obtain s2 where
      "decode s1 = Inr (repeatAccepted s1, s2)"
      "newCommandFlag s2 \<longrightarrow> rawCommandTimeBuf s2 = []"
      "newRepeatFlag s2 \<longrightarrow> rawRepeatTimeBuf s2 = []"
      by blast
    with r1 show ?thesis by (auto intro: decode_quiescent)
  next
    case False
    with c have c': "decode_if_command s = Inr (False, s0)" by simp
    from decode_after_failed_command [OF c' assms(2)] assms(1) have
      "newCommandFlag s1 \<longrightarrow> rawCommandTimeBuf s1 = []"
      "newRepeatFlag s1 \<longrightarrow> rawRepeatTimeBuf s1 = []"
      by auto
    then have "decode s1 = Inr (False, s1)" by (rule decode_quiescent)
    then show ?thesis by auto
  qed
qed

text \<open>
  A failing command burst: the first call returns false, and so does the second,
  from the state that the first call left. A command burst with a repeat burst behind
  it: the first two calls return true and the third returns false.
\<close>

theorem C9_witness:
  "decode ((init False)\<lparr>rawCommandTimeBuf := [62, 62, 62], newCommandFlag := True, necData := 0xffffffff\<rparr>)
     = Inr (False, (init False)\<lparr>necData := 0\<rparr>)
   \<and> length (rawRepeatTimeBuf ((init False)\<lparr>rawCommandTimeBuf := [62, 62, 62], newCommandFlag := True,
        necData := 0xffffffff\<rparr>)) \<noteq> 1
   \<and> decode ((init False)\<lparr>necData := 0\<rparr>) = Inr (False, (init False)\<lparr>necData := 0\<rparr>)
   \<and> decode ((init False)\<lparr>rawRepeatTimeBuf := [9000, 2250], rawCommandTimeBuf := [9000, 4500, 562, 1687],
              newRepeatFlag := True, newCommandFlag := True\<rparr>)
     = Inr (True, (init False)\<lparr>rawRepeatTimeBuf := [9000, 2250], newRepeatFlag := True,
              necData := 0x80000000, err := Some 0\<rparr>)
   \<and> decode ((init False)\<lparr>rawRepeatTimeBuf := [9000, 2250], newRepeatFlag := True,
              necData := 0x80000000, err := Some 0\<rparr>)
     = Inr (True, (init False)\<lparr>newRepeatFlag := True, necData := 0xffffffff, err := Some 0\<rparr>)
   \<and> decode ((init False)\<lparr>newRepeatFlag := True, necData := 0xffffffff, err := Some 0\<rparr>)
     = Inr (False, (init False)\<lparr>newRepeatFlag := True, necData := 0xffffffff, err := Some 0\<rparr>)"
proof -
  let ?s = "(init False)\<lparr>rawCommandTimeBuf := [62, 62, 62], newCommandFlag := True, necData := 0xffffffff\<rparr>"
  let ?t = "(init False)\<lparr>rawRepeatTimeBuf := [9000, 2250], rawCommandTimeBuf := [9000, 4500, 562, 1687],
              newRepeatFlag := True, newCommandFlag := True\<rparr>"
  let ?t1 = "(init False)\<lparr>rawRepeatTimeBuf := [9000, 2250], newRepeatFlag := True,
              necData := 0x80000000, err := Some 0\<rparr>"
  let ?t2 = "(init False)\<lparr>newRepeatFlag := True, necData := 0xffffffff, err := Some 0\<rparr>"
  have d: "decode ?s = Inr (False, (init False)\<lparr>necData := 0\<rparr>)"
    by (simp add: consumer_simps init_def)
  have l: "length (rawRepeatTimeBuf ?s) \<noteq> 1"
    by (simp add: init_def)
  have dt: "decode ?t = Inr (True, ?t1)"
    by (simp add: consumer_simps init_def)
  have lt: "length (rawRepeatTimeBuf ?t) \<noteq> 1"
    by (simp add: init_def)
  have dt1: "decode ?t1 = Inr (True, ?t2)"
    by (simp add: consumer_simps init_def)
  from C9_polling_settles [OF dt lt] dt1 have "decode ?t2 = Inr (False, ?t2)"
    by auto
  with C9_polling_settles [OF d l] d l dt dt1 show ?thesis
    by auto
qed

subsection \<open>C10: the repeat buffer holds no value or two\<close>

text \<open>
  C10: in every reachable state the pending repeat buffer has length 0 or 2, so
  whenever the copied repeat burst is not empty the accesses to its indices 0 and 1
  are in range, and \<^verbatim>\<open>decode\<close> never raises an \<^verbatim>\<open>IndexError\<close>.
\<close>

theorem C10_repeat_buffer_in_bounds:
  "reachable s \<Longrightarrow>
     (length (rawRepeatTimeBuf s) = 0 \<or> length (rawRepeatTimeBuf s) = 2)
     \<and> (rawRepeatTimeBuf s \<noteq> [] \<longrightarrow>
          item (rawRepeatTimeBuf s) 0 = Inr (rawRepeatTimeBuf s ! 0)
          \<and> item (rawRepeatTimeBuf s) 1 = Inr (rawRepeatTimeBuf s ! 1))
     \<and> decode_if_repeat s \<noteq> Inl IndexError
     \<and> decode s \<noteq> Inl IndexError"
proof -
  assume r: "reachable s"
  note l = reachable_repeat_length [OF r]
  then have n: "length (rawRepeatTimeBuf s) \<noteq> 1" by auto
  have "decode s \<noteq> Inl IndexError"
    using decode_error [OF n] by auto
  moreover have "decode_if_repeat s \<noteq> Inl IndexError"
    by (simp add: decode_if_repeat_result [OF n])
  ultimately show ?thesis
    using l by (auto simp: item_def)
qed

text \<open>
  The state reached by a repeat burst on a fresh decoder: its repeat buffer has two
  values and the poll accepts it.
\<close>

theorem C10_witness:
  "reachable ((init False)\<lparr>rawRepeatTimeBuf := [9000, 2250], newRepeatFlag := True\<rparr>)
   \<and> length (rawRepeatTimeBuf ((init False)\<lparr>rawRepeatTimeBuf := [9000, 2250], newRepeatFlag := True\<rparr>)) = 2
   \<and> decode ((init False)\<lparr>rawRepeatTimeBuf := [9000, 2250], newRepeatFlag := True\<rparr>)
       = Inr (True, (init False)\<lparr>newRepeatFlag := True, necData := 0xffffffff\<rparr>)"
proof -
  let ?s = "(init False)\<lparr>rawRepeatTimeBuf := [9000, 2250], newRepeatFlag := True\<rparr>"
  have "run (init False) [ticks 1152, ticks 288, timeout] = Inr ?s"
    by (simp add: producer_simps)
  then have r: "reachable ?s"
    by (rule run_reachable [OF reachable_init])
  from C10_repeat_buffer_in_bounds [OF r] r show ?thesis
    by (simp add: consumer_simps init_def)
qed

end
